theory Spec2Isabelle
  imports Complex_Main
begin

section \<open>Data model of the runner game (src/components/Game.tsx)\<close>

text \<open>
  The component \<open>Game\<close> keeps its state in five React state cells and runs one
  \<open>requestAnimationFrame\<close> loop inside an effect. JavaScript numbers are modelled as
  rationals (\<open>rat\<close>): all constants of the program (0.5, 5, 12, 400, ...) are exactly
  representable, and \<open>Math.floor\<close> is \<open>floor\<close>. Rounding of IEEE doubles and the
  value \<open>NaN\<close> are outside the model. \<open>Math.random()\<close> is an input of the frame (the
  record \<open>draws\<close>), one field per call site.
\<close>

record GameObject =
  x :: rat
  y :: rat
  width :: rat
  height :: rat
  velocityY :: rat

record Obstacle =
  x :: rat
  width :: rat
  height :: rat

definition GRAVITY :: rat where
  "GRAVITY = 1 / 2"

definition JUMP_FORCE :: rat where
  "JUMP_FORCE = - 12"

definition GROUND_HEIGHT :: rat where
  "GROUND_HEIGHT = 400"

definition OBSTACLE_SPEED :: rat where
  "OBSTACLE_SPEED = 5"

definition MIN_OBSTACLE_SPACING :: rat where
  "MIN_OBSTACLE_SPACING = 500"

definition MAX_OBSTACLE_SPACING :: rat where
  "MAX_OBSTACLE_SPACING = 800"

definition MIN_DISTANCE_BETWEEN_OBSTACLES :: rat where
  "MIN_DISTANCE_BETWEEN_OBSTACLES = 400"

text \<open>The canvas element is created with \<open>width={800}\<close> (line 195); \<open>canvas.width\<close> reads it.\<close>

definition canvas_width :: rat where
  "canvas_width = 800"

text \<open>The five \<open>useState\<close> cells of the component (lines 27 to 37).\<close>

record state =
  gameOver :: bool
  player :: GameObject
  obstacles :: "Obstacle list"
  isJumping :: bool
  score :: rat

definition initialState :: state where
  "initialState =
     \<lparr>gameOver = False,
      player = \<lparr>GameObject.x = 50, y = GROUND_HEIGHT - 40, width = 40, height = 40,
                velocityY = 0\<rparr>,
      obstacles = [],
      isJumping = False,
      score = 0\<rparr>"

section \<open>Keyboard handler (lines 39 to 64)\<close>

definition resetGame :: "state \<Rightarrow> state" where
  "resetGame s =
     s\<lparr>gameOver := False,
       player := \<lparr>GameObject.x = 50, y = GROUND_HEIGHT - 40, width = 40, height = 40,
                  velocityY = 0\<rparr>,
       obstacles := [],
       score := 0,
       isJumping := False\<rparr>"

text \<open>
  \<open>e.code\<close> is a string. The handler is re-registered whenever \<open>isJumping\<close> or
  \<open>gameOver\<close> changes (dependency list of line 68), so it always reads the current
  values of the two cells.
\<close>

text \<open>Lines 60 to 63, the second statement of the handler: the jump.\<close>

definition handleJump :: "string \<Rightarrow> state \<Rightarrow> state" where
  "handleJump code s =
     (if (code = ''Space'' \<or> code = ''ArrowUp'') \<and> \<not> isJumping s \<and> \<not> gameOver s
      then s\<lparr>player := (player s)\<lparr>velocityY := JUMP_FORCE\<rparr>, isJumping := True\<rparr>
      else s)"

text \<open>
  Lines 54 to 64: the first statement restarts and returns; only when its condition
  fails is the jump statement reached.
\<close>

definition handleKeyDown :: "string \<Rightarrow> state \<Rightarrow> state" where
  "handleKeyDown code s =
     (if gameOver s \<and> code = ''Space'' then resetGame s
      else handleJump code s)"

section \<open>The animation loop (lines 70 to 189)\<close>

text \<open>
  An instance of the loop effect is a closure: it holds the \<open>player\<close> and \<open>obstacles\<close>
  values of the render that created it (read by \<open>canSpawnObstacle\<close> and by the collision
  check) and its two local variables. The functional updaters \<open>prev => ...\<close> act on the
  current cells instead.
\<close>

record loop =
  cap_player :: GameObject
  cap_obstacles :: "Obstacle list"
  lastTimestamp :: rat
  obstacleSpawnTimer :: rat

text \<open>The three calls of \<open>Math.random()\<close> in one frame: lines 112, 80 and 81.\<close>

record draws =
  rnd_threshold :: rat
  rnd_width :: rat
  rnd_height :: rat

text \<open>
  Lines 70 to 77: the effect body returns at once when \<open>gameOver\<close> holds (the canvas and
  its context exist once the component is mounted); otherwise it starts a loop whose
  local variables are both 0.
\<close>

definition mountLoop :: "state \<Rightarrow> loop option" where
  "mountLoop s =
     (if gameOver s then None
      else Some \<lparr>cap_player = player s, cap_obstacles = obstacles s,
                 lastTimestamp = 0, obstacleSpawnTimer = 0\<rparr>)"

definition createObstacle :: "draws \<Rightarrow> Obstacle" where
  "createObstacle d =
     \<lparr>Obstacle.x = canvas_width,
      width = 30 + rnd_width d * 20,
      height = 50 + rnd_height d * 50\<rparr>"

definition canSpawnObstacle :: "loop \<Rightarrow> bool" where
  "canSpawnObstacle l =
     (if length (cap_obstacles l) = 0 then True
      else Obstacle.x (last (cap_obstacles l))
             < canvas_width - MIN_DISTANCE_BETWEEN_OBSTACLES)"

definition checkCollision :: "GameObject \<Rightarrow> Obstacle \<Rightarrow> bool" where
  "checkCollision p ob =
     (GameObject.x p < Obstacle.x ob + Obstacle.width ob \<and>
      GameObject.x p + GameObject.width p > Obstacle.x ob \<and>
      GameObject.y p + GameObject.height p > GROUND_HEIGHT - Obstacle.height ob)"

text \<open>Lines 111 to 117: the spawn decision, on the timer already increased by line 106.\<close>

definition spawnObstacles :: "draws \<Rightarrow> loop \<times> state \<Rightarrow> loop \<times> state" where
  "spawnObstacles d ls =
     (case ls of (l, s) \<Rightarrow>
        if obstacleSpawnTimer l
             > MIN_OBSTACLE_SPACING
                 + rnd_threshold d * (MAX_OBSTACLE_SPACING - MIN_OBSTACLE_SPACING)
        then (if canSpawnObstacle l
              then (l\<lparr>obstacleSpawnTimer := 0\<rparr>,
                    s\<lparr>obstacles := obstacles s @ [createObstacle d]\<rparr>)
              else (l, s))
        else (l, s))"

text \<open>Lines 120 to 124: the updater given to \<open>setObstacles\<close>.\<close>

definition updateObstacles :: "Obstacle list \<Rightarrow> Obstacle list" where
  "updateObstacles prev =
     filter (\<lambda>obstacle. Obstacle.x obstacle + Obstacle.width obstacle > 0)
       (map (\<lambda>obstacle. obstacle\<lparr>Obstacle.x := Obstacle.x obstacle - OBSTACLE_SPEED\<rparr>) prev)"

text \<open>
  Lines 127 to 146: the updater given to \<open>setPlayer\<close>; on ground contact it also calls
  \<open>setIsJumping(false)\<close>.
\<close>

definition updatePlayer :: "state \<Rightarrow> state" where
  "updatePlayer s =
     (let prev = player s;
          newY = GameObject.y prev + velocityY prev;
          newVelocityY = velocityY prev + GRAVITY
      in if newY \<ge> GROUND_HEIGHT - GameObject.height prev
         then s\<lparr>isJumping := False,
                player := prev\<lparr>y := GROUND_HEIGHT - GameObject.height prev, velocityY := 0\<rparr>\<rparr>
         else s\<lparr>player := prev\<lparr>y := newY, velocityY := newVelocityY\<rparr>\<rparr>)"

text \<open>
  Lines 149 to 153: \<open>obstacles.forEach\<close> over the closure's \<open>obstacles\<close>, testing the
  closure's \<open>player\<close>.
\<close>

definition checkCollisions :: "loop \<Rightarrow> state \<Rightarrow> state" where
  "checkCollisions l s =
     fold (\<lambda>obstacle s'. if checkCollision (cap_player l) obstacle
                          then s'\<lparr>gameOver := True\<rparr> else s')
       (cap_obstacles l) s"

text \<open>Lines 180 to 182: \<open>if (deltaTime)\<close> holds for every number other than 0.\<close>

definition incrementScore :: "rat \<Rightarrow> state \<Rightarrow> state" where
  "incrementScore deltaTime s =
     (if deltaTime \<noteq> 0 then s\<lparr>score := score s + of_int \<lfloor>deltaTime / 100\<rfloor>\<rparr> else s)"

text \<open>
  One call of \<open>gameLoop(timestamp)\<close>, lines 103 to 185, without the drawing calls (they
  change neither the cells nor the closure).
\<close>

definition gameLoop :: "rat \<Rightarrow> draws \<Rightarrow> loop \<times> state \<Rightarrow> loop \<times> state" where
  "gameLoop timestamp d ls =
     (case ls of (l, s) \<Rightarrow>
        let deltaTime = timestamp - lastTimestamp l;
            l1 = l\<lparr>lastTimestamp := timestamp,
                   obstacleSpawnTimer := obstacleSpawnTimer l + deltaTime\<rparr>;
            (l2, s2) = spawnObstacles d (l1, s);
            s3 = s2\<lparr>obstacles := updateObstacles (obstacles s2)\<rparr>;
            s4 = updatePlayer s3;
            s5 = checkCollisions l2 s4;
            s6 = incrementScore deltaTime s5
        in (l2, s6))"

section \<open>Frames of the mounted component\<close>

text \<open>
  The loop effect depends on \<open>[player, obstacles, score, gameOver]\<close> (line 189). Every call
  of \<open>gameLoop\<close> stores a new player object and a new obstacle array, so React cleans the
  effect up and runs it again before the next callback: each animation frame runs
  \<open>gameLoop\<close> once, in a closure made from the cells as they are at the start of the
  frame. While \<open>gameOver\<close> holds there is no loop, and a frame changes nothing.
\<close>

definition frame :: "rat \<Rightarrow> draws \<Rightarrow> state \<Rightarrow> state" where
  "frame timestamp d s =
     (case mountLoop s of
        None \<Rightarrow> s
      | Some l \<Rightarrow> snd (gameLoop timestamp d (l, s)))"

datatype event = Frame rat draws | KeyDown string

fun step :: "event \<Rightarrow> state \<Rightarrow> state" where
  "step (Frame timestamp d) s = frame timestamp d s"
| "step (KeyDown code) s = handleKeyDown code s"

fun run :: "event list \<Rightarrow> state \<Rightarrow> state" where
  "run [] s = s"
| "run (e # es) s = run es (step e s)"

text \<open>
  The condition under which line 114 runs in a call of \<open>gameLoop\<close>: the timer, after
  line 106 has added \<open>deltaTime\<close> to it, exceeds the threshold rolled at line 112, and
  \<open>canSpawnObstacle\<close> holds.
\<close>

definition spawns :: "rat \<Rightarrow> draws \<Rightarrow> loop \<Rightarrow> bool" where
  "spawns timestamp d l =
     (obstacleSpawnTimer l + (timestamp - lastTimestamp l)
        > MIN_OBSTACLE_SPACING
            + rnd_threshold d * (MAX_OBSTACLE_SPACING - MIN_OBSTACLE_SPACING)
      \<and> canSpawnObstacle l)"

section \<open>Concrete states and inputs\<close>

definition draws0 :: draws where
  "draws0 = \<lparr>rnd_threshold = 1 / 2, rnd_width = 1 / 2, rnd_height = 1 / 2\<rparr>"

text \<open>The closure of the first effect run of a freshly mounted component.\<close>

definition loop0 :: loop where
  "loop0 =
     \<lparr>cap_player = \<lparr>GameObject.x = 50, y = 360, width = 40, height = 40, velocityY = 0\<rparr>,
      cap_obstacles = [],
      lastTimestamp = 0,
      obstacleSpawnTimer = 0\<rparr>"

text \<open>A finished session: the player hit an obstacle in mid-air with 17 points.\<close>

definition overState :: state where
  "overState =
     \<lparr>gameOver = True,
      player = \<lparr>GameObject.x = 50, y = 300, width = 40, height = 40, velocityY = - 3\<rparr>,
      obstacles = [\<lparr>Obstacle.x = 60, width = 30, height = 60\<rparr>],
      isJumping = True,
      score = 17\<rparr>"

text \<open>A running session with the player in the air, moving up.\<close>

definition airborneState :: state where
  "airborneState =
     \<lparr>gameOver = False,
      player = \<lparr>GameObject.x = 50, y = 300, width = 40, height = 40, velocityY = - 12\<rparr>,
      obstacles = [],
      isJumping = True,
      score = 0\<rparr>"

text \<open>A grounded player beside an obstacle that one more advance moves out of reach.\<close>

definition grazingState :: state where
  "grazingState =
     \<lparr>gameOver = False,
      player = \<lparr>GameObject.x = 50, y = 360, width = 40, height = 40, velocityY = 0\<rparr>,
      obstacles = [\<lparr>Obstacle.x = 22, width = 30, height = 60\<rparr>],
      isJumping = False,
      score = 0\<rparr>"

text \<open>A closure that has already run a frame at timestamp 1000.\<close>

definition lateLoop :: loop where
  "lateLoop =
     \<lparr>cap_player = \<lparr>GameObject.x = 50, y = 360, width = 40, height = 40, velocityY = 0\<rparr>,
      cap_obstacles = [],
      lastTimestamp = 1000,
      obstacleSpawnTimer = 0\<rparr>"

text \<open>A running session with 5 points.\<close>

definition scoredState :: state where
  "scoredState =
     \<lparr>gameOver = False,
      player = \<lparr>GameObject.x = 50, y = 360, width = 40, height = 40, velocityY = 0\<rparr>,
      obstacles = [],
      isJumping = False,
      score = 5\<rparr>"

text \<open>
  Three obstacles: one already past the left edge, one that the next advance moves past
  it, and one in the middle of the canvas.
\<close>

definition cullState :: state where
  "cullState =
     \<lparr>gameOver = False,
      player = \<lparr>GameObject.x = 50, y = 360, width = 40, height = 40, velocityY = 0\<rparr>,
      obstacles = [\<lparr>Obstacle.x = - 30, width = 30, height = 60\<rparr>,
                   \<lparr>Obstacle.x = - 28, width = 30, height = 60\<rparr>,
                   \<lparr>Obstacle.x = 300, width = 40, height = 70\<rparr>],
      isJumping = False,
      score = 0\<rparr>"

text \<open>
  The session \<open>k\<close> frames after its first obstacle was created, with a grounded player
  and every frame at timestamp 1000 with the draws \<open>draws0\<close>.
\<close>

definition marching :: "nat \<Rightarrow> state" where
  "marching k =
     \<lparr>gameOver = False,
      player = \<lparr>GameObject.x = 50, y = 360, width = 40, height = 40, velocityY = 0\<rparr>,
      obstacles = [\<lparr>Obstacle.x = 800 - 5 * of_nat k, width = 40, height = 75\<rparr>],
      isJumping = False,
      score = 10 * of_nat k\<rparr>"

section \<open>Sequences of frames and the spacing of obstacles\<close>

text \<open>
  \<open>loopRun\<close> repeats \<open>gameLoop\<close> inside one closure (its local variables carry over
  from call to call); \<open>frameEvents\<close> turns timestamps and draws into frames of the
  mounted component, each in a closure of its own.
\<close>

fun loopRun :: "(rat \<times> draws) list \<Rightarrow> loop \<times> state \<Rightarrow> loop \<times> state" where
  "loopRun [] ls = ls"
| "loopRun ((timestamp, d) # fs) ls = loopRun fs (gameLoop timestamp d ls)"

definition frameEvents :: "(rat \<times> draws) list \<Rightarrow> event list" where
  "frameEvents fs = map (\<lambda>(timestamp, d). Frame timestamp d) fs"

text \<open>
  \<open>fastFrames i n\<close>: \<open>n\<close> animation frames 7 ms apart (a 144 Hz display), the frame
  numbered \<open>k\<close> at timestamp \<open>1000 + 7 k\<close>, starting with number \<open>i\<close>, every draw 1/2.
\<close>

definition fastFrames :: "nat \<Rightarrow> nat \<Rightarrow> (rat \<times> draws) list" where
  "fastFrames i n = map (\<lambda>k. (1000 + 7 * of_nat k, draws0)) [i..<i + n]"

text \<open>
  A running session with a grounded player whose only obstacle was created \<open>k\<close> frames
  ago.
\<close>

definition onTheMarch :: "nat \<Rightarrow> state \<Rightarrow> bool" where
  "onTheMarch k s =
     (\<not> gameOver s
      \<and> player s = \<lparr>GameObject.x = 50, y = 360, width = 40, height = 40, velocityY = 0\<rparr>
      \<and> obstacles s = [\<lparr>Obstacle.x = 800 - 5 * of_nat k, width = 40, height = 75\<rparr>])"

text \<open>
  A closure that spawned at timestamp 1000 and has run \<open>k\<close> more calls of
  \<open>fastFrames\<close> since, and the obstacle it created.
\<close>

definition inOneClosure :: "nat \<Rightarrow> loop \<times> state \<Rightarrow> bool" where
  "inOneClosure k ls =
     (cap_obstacles (fst ls) = []
      \<and> lastTimestamp (fst ls) = 1000 + 7 * of_nat k
      \<and> obstacleSpawnTimer (fst ls) = 7 * of_nat k
      \<and> obstacles (snd ls) = [\<lparr>Obstacle.x = 795 - 5 * of_nat k, width = 40, height = 75\<rparr>])"

text \<open>
  Every obstacle lies at least \<open>MIN_DISTANCE_BETWEEN_OBSTACLES\<close> to the right of every
  obstacle before it in the sequence.
\<close>

definition spaced :: "Obstacle list \<Rightarrow> bool" where
  "spaced obs =
     sorted_wrt (\<lambda>a b. MIN_DISTANCE_BETWEEN_OBSTACLES \<le> Obstacle.x b - Obstacle.x a) obs"

section \<open>What one call of the loop does to each cell\<close>

lemma fold_collision:
  "fold (\<lambda>obstacle s'. if checkCollision p obstacle then s'\<lparr>gameOver := True\<rparr> else s') obs s =
     (if \<exists>ob \<in> set obs. checkCollision p ob then s\<lparr>gameOver := True\<rparr> else s)"
proof (induction obs arbitrary: s)
  case Nil
  show ?case by simp
next
  case (Cons ob obs)
  show ?case by (simp add: Cons.IH)
qed

lemma checkCollisions_eq:
  "checkCollisions l s =
     (if \<exists>ob \<in> set (cap_obstacles l). checkCollision (cap_player l) ob
      then s\<lparr>gameOver := True\<rparr> else s)"
  unfolding checkCollisions_def by (rule fold_collision)

lemma gameLoop_loop:
  "fst (gameLoop timestamp d (l, s)) =
     l\<lparr>lastTimestamp := timestamp,
       obstacleSpawnTimer :=
         (if spawns timestamp d l then 0
          else obstacleSpawnTimer l + (timestamp - lastTimestamp l))\<rparr>"
  by (simp add: gameLoop_def spawnObstacles_def spawns_def canSpawnObstacle_def Let_def
      split: prod.splits)

lemma gameLoop_obstacles:
  "obstacles (snd (gameLoop timestamp d (l, s))) =
     updateObstacles
       (if spawns timestamp d l then obstacles s @ [createObstacle d] else obstacles s)"
  by (simp add: gameLoop_def spawnObstacles_def spawns_def canSpawnObstacle_def Let_def
      updatePlayer_def checkCollisions_eq incrementScore_def split: prod.splits)

lemma gameLoop_player:
  "player (snd (gameLoop timestamp d (l, s))) = player (updatePlayer s)"
  by (simp add: gameLoop_def spawnObstacles_def Let_def
      updatePlayer_def checkCollisions_eq incrementScore_def split: prod.splits)

lemma gameLoop_isJumping:
  "isJumping (snd (gameLoop timestamp d (l, s))) = isJumping (updatePlayer s)"
  by (simp add: gameLoop_def spawnObstacles_def Let_def
      updatePlayer_def checkCollisions_eq incrementScore_def split: prod.splits)

lemma gameLoop_gameOver:
  "gameOver (snd (gameLoop timestamp d (l, s))) =
     (gameOver s \<or> (\<exists>ob \<in> set (cap_obstacles l). checkCollision (cap_player l) ob))"
  by (simp add: gameLoop_def spawnObstacles_def Let_def
      updatePlayer_def checkCollisions_eq incrementScore_def split: prod.splits)

lemma gameLoop_score:
  "score (snd (gameLoop timestamp d (l, s))) =
     score (incrementScore (timestamp - lastTimestamp l) s)"
  by (simp add: gameLoop_def spawnObstacles_def Let_def
      updatePlayer_def checkCollisions_eq incrementScore_def split: prod.splits)

section \<open>Auxiliary facts about obstacles, spacing and the score\<close>

lemma updateObstacles_alt:
  "updateObstacles prev =
     map (\<lambda>ob. ob\<lparr>Obstacle.x := Obstacle.x ob - OBSTACLE_SPEED\<rparr>)
       (filter (\<lambda>ob. Obstacle.x ob - OBSTACLE_SPEED + Obstacle.width ob > 0) prev)"
  by (simp add: updateObstacles_def filter_map comp_def)

lemma updateObstacles_visible:
  "ob \<in> set (updateObstacles prev) \<Longrightarrow> Obstacle.x ob + Obstacle.width ob > 0"
  by (simp add: updateObstacles_def)

lemma updateObstacles_append:
  "updateObstacles (xs @ ys) = updateObstacles xs @ updateObstacles ys"
  by (simp add: updateObstacles_def)

lemma frame_gameOver_id: "gameOver s \<Longrightarrow> frame timestamp d s = s"
  by (simp add: frame_def mountLoop_def)

lemma handleKeyDown_obstacles:
  "obstacles (handleKeyDown code s) = obstacles s \<or> obstacles (handleKeyDown code s) = []"
  by (simp add: handleKeyDown_def handleJump_def resetGame_def)

lemma step_visible:
  assumes "\<forall>ob \<in> set (obstacles s). Obstacle.x ob + Obstacle.width ob > 0"
  shows "\<forall>ob \<in> set (obstacles (step e s)). Obstacle.x ob + Obstacle.width ob > 0"
proof (cases e)
  case (Frame timestamp d)
  show ?thesis
  proof (cases "gameOver s")
    case True
    with Frame assms show ?thesis by (simp add: frame_gameOver_id)
  next
    case False
    then have "obstacles (frame timestamp d s) =
       updateObstacles (if spawns timestamp d (the (mountLoop s)) then obstacles s @ [createObstacle d] else obstacles s)"
      by (simp add: frame_def mountLoop_def gameLoop_obstacles)
    with Frame show ?thesis by (simp add: updateObstacles_visible)
  qed
next
  case (KeyDown code)
  with assms handleKeyDown_obstacles [of code s] show ?thesis by auto
qed

lemma run_visible:
  "\<forall>ob \<in> set (obstacles s). Obstacle.x ob + Obstacle.width ob > 0 \<Longrightarrow>
   \<forall>ob \<in> set (obstacles (run es s)). Obstacle.x ob + Obstacle.width ob > 0"
proof (induction es arbitrary: s)
  case Nil
  then show ?case by simp
next
  case (Cons e es)
  from Cons.prems have "\<forall>ob \<in> set (obstacles (step e s)). Obstacle.x ob + Obstacle.width ob > 0"
    by (rule step_visible)
  then show ?case using Cons.IH by simp
qed

lemma spaced_updateObstacles: "spaced obs \<Longrightarrow> spaced (updateObstacles obs)"
  unfolding spaced_def updateObstacles_def
  by (rule sorted_wrt_filter) (simp add: sorted_wrt_map)

lemma spaced_below_last:
  assumes "spaced obs" and "a \<in> set obs"
  shows "Obstacle.x a \<le> Obstacle.x (last obs)"
proof -
  from assms(2) have ne: "obs \<noteq> []" by auto
  then have split: "obs = butlast obs @ [last obs]" by simp
  with assms(1) have "spaced (butlast obs @ [last obs])" by simp
  then have "\<forall>b \<in> set (butlast obs).
      MIN_DISTANCE_BETWEEN_OBSTACLES \<le> Obstacle.x (last obs) - Obstacle.x b"
    by (simp add: spaced_def sorted_wrt_append)
  moreover from assms(2) split have "a \<in> set (butlast obs) \<or> a = last obs"
    by (metis Un_iff empty_iff insert_iff list.set(1) list.set(2) set_append)
  ultimately show ?thesis
    by (auto simp add: MIN_DISTANCE_BETWEEN_OBSTACLES_def)
qed

lemma spaced_append:
  assumes "spaced obs"
    and "obs = [] \<or> Obstacle.x (last obs) < canvas_width - MIN_DISTANCE_BETWEEN_OBSTACLES"
  shows "spaced (obs @ [createObstacle d])"
proof -
  have "MIN_DISTANCE_BETWEEN_OBSTACLES \<le> Obstacle.x (createObstacle d) - Obstacle.x a"
    if "a \<in> set obs" for a
  proof -
    from that have "obs \<noteq> []" by auto
    with assms(2) have "Obstacle.x (last obs) < canvas_width - MIN_DISTANCE_BETWEEN_OBSTACLES"
      by simp
    moreover from assms(1) that have "Obstacle.x a \<le> Obstacle.x (last obs)"
      by (rule spaced_below_last)
    ultimately show ?thesis
      by (simp add: createObstacle_def)
  qed
  with assms(1) show ?thesis
    by (simp add: spaced_def sorted_wrt_append)
qed

lemma spawns_mount:
  "spawns timestamp d \<lparr>cap_player = p, cap_obstacles = obs, lastTimestamp = 0,
                        obstacleSpawnTimer = 0\<rparr>
   \<Longrightarrow> obs = [] \<or> Obstacle.x (last obs) < canvas_width - MIN_DISTANCE_BETWEEN_OBSTACLES"
  by (auto simp add: spawns_def canSpawnObstacle_def split: if_splits)

lemma spaced_frame: "spaced (obstacles s) \<Longrightarrow> spaced (obstacles (frame timestamp d s))"
proof (cases "gameOver s")
  case True
  assume "spaced (obstacles s)"
  with True show ?thesis by (simp add: frame_def mountLoop_def)
next
  case False
  assume sp: "spaced (obstacles s)"
  let ?l = "\<lparr>cap_player = player s, cap_obstacles = obstacles s, lastTimestamp = 0,
             obstacleSpawnTimer = 0\<rparr>"
  from False have obs: "obstacles (frame timestamp d s) =
      updateObstacles (if spawns timestamp d ?l then obstacles s @ [createObstacle d]
                       else obstacles s)"
    by (simp add: frame_def mountLoop_def gameLoop_obstacles)
  show ?thesis
  proof (cases "spawns timestamp d ?l")
    case True
    then have "obstacles s = [] \<or>
        Obstacle.x (last (obstacles s)) < canvas_width - MIN_DISTANCE_BETWEEN_OBSTACLES"
      by (rule spawns_mount)
    with sp have "spaced (obstacles s @ [createObstacle d])"
      by (rule spaced_append)
    with True obs show ?thesis by (simp add: spaced_updateObstacles)
  next
    case False
    with sp obs show ?thesis by (simp add: spaced_updateObstacles)
  qed
qed

lemma spaced_step: "spaced (obstacles s) \<Longrightarrow> spaced (obstacles (step e s))"
proof (cases e)
  case (Frame timestamp d)
  assume "spaced (obstacles s)"
  with Frame show ?thesis by (simp add: spaced_frame)
next
  case (KeyDown code)
  assume "spaced (obstacles s)"
  with KeyDown show ?thesis
    by (auto simp add: handleKeyDown_def handleJump_def resetGame_def spaced_def)
qed

lemma spaced_run: "spaced (obstacles s) \<Longrightarrow> spaced (obstacles (run es s))"
  by (induction es arbitrary: s) (simp_all add: spaced_step)

lemma first_frame_marching: "frame 1000 draws0 initialState = marching 1"
  by (simp add: frame_def mountLoop_def gameLoop_def spawnObstacles_def canSpawnObstacle_def
      createObstacle_def updateObstacles_def updatePlayer_def checkCollisions_def
      incrementScore_def initialState_def marching_def draws0_def Let_def
      MIN_OBSTACLE_SPACING_def MAX_OBSTACLE_SPACING_def canvas_width_def OBSTACLE_SPEED_def
      GROUND_HEIGHT_def)

lemma frame_marching:
  assumes "k \<le> 80"
  shows "frame 1000 draws0 (marching k) = marching (Suc k)"
proof -
  from assms have "(of_nat k :: rat) \<le> 80" by simp
  then show ?thesis
    by (simp add: frame_def mountLoop_def gameLoop_def spawnObstacles_def canSpawnObstacle_def
        updateObstacles_def updatePlayer_def checkCollisions_def checkCollision_def
        incrementScore_def marching_def draws0_def Let_def
        MIN_OBSTACLE_SPACING_def MAX_OBSTACLE_SPACING_def canvas_width_def OBSTACLE_SPEED_def
        MIN_DISTANCE_BETWEEN_OBSTACLES_def GROUND_HEIGHT_def)
qed

lemma run_marching:
  "k + n \<le> 81 \<Longrightarrow> run (replicate n (Frame 1000 draws0)) (marching k) = marching (k + n)"
proof (induction n arbitrary: k)
  case 0
  show ?case by simp
next
  case (Suc n)
  from Suc.prems have "k \<le> 80" by simp
  then have "frame 1000 draws0 (marching k) = marching (Suc k)"
    by (rule frame_marching)
  moreover from Suc.prems have "run (replicate n (Frame 1000 draws0)) (marching (Suc k))
      = marching (Suc k + n)"
    by (intro Suc.IH) simp
  ultimately show ?case by simp
qed

lemma reach_marching_81:
  "run (Frame 1000 draws0 # replicate 80 (Frame 1000 draws0)) initialState = marching 81"
  using run_marching [of 1 80] by (simp add: first_frame_marching)

lemma incrementScore_score:
  "score (incrementScore deltaTime s) =
     score s + (if deltaTime \<noteq> 0 then of_int \<lfloor>deltaTime / 100\<rfloor> else 0)"
  by (simp add: incrementScore_def)

lemma incrementScore_mono: "0 \<le> deltaTime \<Longrightarrow> score s \<le> score (incrementScore deltaTime s)"
  by (simp add: incrementScore_def)

lemma incrementScore_Ints: "score s \<in> \<int> \<Longrightarrow> score (incrementScore deltaTime s) \<in> \<int>"
  by (simp add: incrementScore_def)

lemma gameLoop_lastTimestamp: "lastTimestamp (fst (gameLoop timestamp d ls)) = timestamp"
  by (cases ls) (simp add: gameLoop_loop)

lemma frame_score:
  "score (frame timestamp d s) = (if gameOver s then score s else score (incrementScore timestamp s))"
  by (simp add: frame_def mountLoop_def gameLoop_score)

lemma frames_score_mono:
  "\<forall>f \<in> set fs. 0 \<le> fst f \<Longrightarrow> score s \<le> score (run (frameEvents fs) s)"
proof (induction fs arbitrary: s)
  case Nil
  show ?case by (simp add: frameEvents_def)
next
  case (Cons f fs)
  obtain timestamp d where f: "f = (timestamp, d)" by (cases f)
  with Cons.prems have "0 \<le> timestamp" by simp
  then have "score s \<le> score (frame timestamp d s)"
    by (simp add: frame_score incrementScore_mono)
  also from Cons.prems have "\<dots> \<le> score (run (frameEvents fs) (frame timestamp d s))"
    by (intro Cons.IH) simp
  finally show ?case by (simp add: frameEvents_def f)
qed

lemma frames_score_Ints:
  "score s \<in> \<int> \<Longrightarrow> score (run (frameEvents fs) s) \<in> \<int>"
proof (induction fs arbitrary: s)
  case Nil
  then show ?case by (simp add: frameEvents_def)
next
  case (Cons f fs)
  obtain timestamp d where f: "f = (timestamp, d)" by (cases f)
  from Cons.prems have "score (frame timestamp d s) \<in> \<int>"
    by (simp add: frame_score incrementScore_Ints)
  then have "score (run (frameEvents fs) (frame timestamp d s)) \<in> \<int>"
    by (rule Cons.IH)
  then show ?case by (simp add: frameEvents_def f)
qed

lemma frames_gameOver_id: "gameOver s \<Longrightarrow> run (frameEvents fs) s = s"
  by (induction fs) (auto simp add: frameEvents_def frame_gameOver_id)

lemma loopRun_score_mono:
  "sorted (lastTimestamp l # map fst fs) \<Longrightarrow> score s \<le> score (snd (loopRun fs (l, s)))"
proof (induction fs arbitrary: l s)
  case Nil
  show ?case by simp
next
  case (Cons f fs)
  obtain timestamp d where f: "f = (timestamp, d)" by (cases f)
  obtain l' s' where step: "gameLoop timestamp d (l, s) = (l', s')" by (cases "gameLoop timestamp d (l, s)")
  from Cons.prems f have le: "lastTimestamp l \<le> timestamp" and rest: "sorted (timestamp # map fst fs)"
    by simp_all
  from step have l': "lastTimestamp l' = timestamp"
    using gameLoop_lastTimestamp [of timestamp d "(l, s)"] by simp
  from step le have "score s \<le> score s'"
    using gameLoop_score [of timestamp d l s] incrementScore_mono [of "timestamp - lastTimestamp l" s]
    by simp
  also from rest l' have "\<dots> \<le> score (snd (loopRun fs (l', s')))"
    by (intro Cons.IH) simp
  finally show ?case by (simp add: f step)
qed

section \<open>Eighty-two fast frames\<close>

lemma fastFrames_0: "fastFrames i 0 = []"
  by (simp add: fastFrames_def)

lemma fastFrames_Suc:
  "fastFrames i (Suc n) = (1000 + 7 * of_nat i, draws0) # fastFrames (Suc i) n"
  by (simp add: fastFrames_def upt_conv_Cons)

lemma fastFrames_snoc:
  "fastFrames i (Suc n) = fastFrames i n @ [(1000 + 7 * of_nat (i + n), draws0)]"
  by (simp add: fastFrames_def)

lemma length_fastFrames: "length (fastFrames i n) = n"
  by (simp add: fastFrames_def)

lemma run_append: "run (es @ es') s = run es' (run es s)"
  by (induction es arbitrary: s) simp_all

lemma frameEvents_append: "frameEvents (fs @ fs') = frameEvents fs @ frameEvents fs'"
  by (simp add: frameEvents_def)

lemma frameEvents_Cons: "frameEvents ((timestamp, d) # fs) = Frame timestamp d # frameEvents fs"
  by (simp add: frameEvents_def)

lemma frame_onTheMarch:
  assumes "onTheMarch k s" and "k \<le> 80"
  shows "onTheMarch (Suc k) (frame timestamp d s)"
proof -
  from assms(2) have k: "(of_nat k :: rat) \<le> 80" by simp
  from assms(1) have running: "\<not> gameOver s"
    and p: "player s = \<lparr>GameObject.x = 50, y = 360, width = 40, height = 40, velocityY = 0\<rparr>"
    and obs: "obstacles s = [\<lparr>Obstacle.x = 800 - 5 * of_nat k, width = 40, height = 75\<rparr>]"
    by (simp_all add: onTheMarch_def)
  let ?l = "\<lparr>cap_player = player s, cap_obstacles = obstacles s, lastTimestamp = 0,
             obstacleSpawnTimer = 0\<rparr>"
  from running have fr: "frame timestamp d s = snd (gameLoop timestamp d (?l, s))"
    by (simp add: frame_def mountLoop_def)
  from k have hit: "\<not> checkCollision (player s)
      \<lparr>Obstacle.x = 800 - 5 * of_nat k, width = 40, height = 75\<rparr>"
    by (simp add: checkCollision_def p)
  have "\<not> gameOver (frame timestamp d s)"
    using running hit by (simp add: fr gameLoop_gameOver obs)
  moreover have "player (frame timestamp d s) = player s"
    by (simp add: fr gameLoop_player updatePlayer_def Let_def p GROUND_HEIGHT_def)
  moreover from k have "obstacles (frame timestamp d s)
      = [\<lparr>Obstacle.x = 800 - 5 * of_nat (Suc k), width = 40, height = 75\<rparr>]"
    by (simp add: fr gameLoop_obstacles spawns_def canSpawnObstacle_def obs canvas_width_def
        MIN_DISTANCE_BETWEEN_OBSTACLES_def updateObstacles_def OBSTACLE_SPEED_def)
  ultimately show ?thesis
    by (simp add: onTheMarch_def p)
qed

lemma run_onTheMarch:
  "onTheMarch k s \<Longrightarrow> k + length fs \<le> 81 \<Longrightarrow>
   onTheMarch (k + length fs) (run (frameEvents fs) s)"
proof (induction fs arbitrary: k s)
  case Nil
  then show ?case by (simp add: frameEvents_def)
next
  case (Cons f fs)
  obtain timestamp d where f: "f = (timestamp, d)" by (cases f)
  from Cons.prems have "k \<le> 80" by simp
  with Cons.prems(1) have "onTheMarch (Suc k) (frame timestamp d s)"
    by (rule frame_onTheMarch)
  moreover from Cons.prems(2) have "Suc k + length fs \<le> 81" by simp
  ultimately have "onTheMarch (Suc k + length fs) (run (frameEvents fs) (frame timestamp d s))"
    by (rule Cons.IH)
  then show ?case by (simp add: f frameEvents_Cons)
qed

lemma onTheMarch_first: "onTheMarch 1 (frame 1000 draws0 initialState)"
  by (simp add: first_frame_marching marching_def onTheMarch_def)

lemma onTheMarch_81: "onTheMarch 81 (run (frameEvents (fastFrames 0 81)) initialState)"
proof -
  have "fastFrames 0 81 = (1000, draws0) # fastFrames 1 80"
    using fastFrames_Suc [of 0 80] by simp
  moreover have "onTheMarch (1 + length (fastFrames 1 80))
      (run (frameEvents (fastFrames 1 80)) (frame 1000 draws0 initialState))"
    by (rule run_onTheMarch [OF onTheMarch_first]) (simp add: length_fastFrames)
  ultimately show ?thesis
    by (simp add: frameEvents_Cons length_fastFrames)
qed

lemma gameLoop_inOneClosure:
  assumes "inOneClosure k ls" and "k \<le> 90"
  shows "inOneClosure (Suc k) (gameLoop (1000 + 7 * of_nat (Suc k)) draws0 ls)"
proof -
  obtain l s where ls: "ls = (l, s)" by (cases ls)
  from assms(2) have k: "(of_nat k :: rat) \<le> 90" by simp
  from assms(1) ls have cap: "cap_obstacles l = []"
    and last: "lastTimestamp l = 1000 + 7 * of_nat k"
    and timer: "obstacleSpawnTimer l = 7 * of_nat k"
    and obs: "obstacles s = [\<lparr>Obstacle.x = 795 - 5 * of_nat k, width = 40, height = 75\<rparr>]"
    by (simp_all add: inOneClosure_def)
  from k show ?thesis
    by (simp add: ls inOneClosure_def gameLoop_loop gameLoop_obstacles spawns_def draws0_def
        MIN_OBSTACLE_SPACING_def MAX_OBSTACLE_SPACING_def cap last timer obs
        updateObstacles_def OBSTACLE_SPEED_def)
qed

lemma loopRun_inOneClosure:
  "inOneClosure k ls \<Longrightarrow> k + n \<le> 91 \<Longrightarrow>
   inOneClosure (k + n) (loopRun (fastFrames (Suc k) n) ls)"
proof (induction n arbitrary: k ls)
  case 0
  then show ?case by (simp add: fastFrames_0)
next
  case (Suc n)
  from Suc.prems have "k \<le> 90" by simp
  with Suc.prems(1)
  have "inOneClosure (Suc k) (gameLoop (1000 + 7 * of_nat (Suc k)) draws0 ls)"
    by (rule gameLoop_inOneClosure)
  moreover from Suc.prems(2) have "Suc k + n \<le> 91" by simp
  ultimately have "inOneClosure (Suc k + n)
      (loopRun (fastFrames (Suc (Suc k)) n) (gameLoop (1000 + 7 * of_nat (Suc k)) draws0 ls))"
    by (rule Suc.IH)
  then show ?case by (simp add: fastFrames_Suc [of "Suc k"])
qed

lemma inOneClosure_first: "inOneClosure 0 (gameLoop 1000 draws0 (loop0, initialState))"
  by (simp add: inOneClosure_def gameLoop_loop gameLoop_obstacles spawns_def
      canSpawnObstacle_def loop0_def initialState_def createObstacle_def draws0_def
      MIN_OBSTACLE_SPACING_def MAX_OBSTACLE_SPACING_def canvas_width_def updateObstacles_def
      OBSTACLE_SPEED_def)

lemma inOneClosure_81: "inOneClosure 81 (loopRun (fastFrames 0 82) (loop0, initialState))"
proof -
  have "fastFrames 0 82 = (1000, draws0) # fastFrames 1 81"
    using fastFrames_Suc [of 0 81] by simp
  moreover have "inOneClosure (0 + 81)
      (loopRun (fastFrames (Suc 0) 81) (gameLoop 1000 draws0 (loop0, initialState)))"
    by (rule loopRun_inOneClosure [OF inOneClosure_first]) simp
  ultimately show ?thesis by simp
qed

section \<open>The physics step\<close>

text \<open>
  C1 (ground clamp). For every player of height 40 and every closure, one call of
  \<open>gameLoop\<close> does the following to the player cell. If \<open>newY = y + velocityY\<close> is at least
  \<open>GROUND_HEIGHT - height\<close>, the new player has \<open>y = GROUND_HEIGHT - height\<close> (that is 360)
  and \<open>velocityY = 0\<close>, and \<open>isJumping\<close> is cleared. Otherwise the new player has
  \<open>y = newY\<close> and \<open>velocityY = velocityY + GRAVITY\<close>, and \<open>isJumping\<close> keeps its value.
  No other field of the player changes.
\<close>

theorem ground_clamp:
  "GameObject.height (player s) = 40 \<longrightarrow>
     (let p = player s;
          newY = GameObject.y p + velocityY p;
          s' = snd (gameLoop timestamp d (l, s))
      in if newY \<ge> GROUND_HEIGHT - GameObject.height p
         then player s' = p\<lparr>y := GROUND_HEIGHT - GameObject.height p, velocityY := 0\<rparr>
              \<and> GameObject.y (player s') = 360 \<and> velocityY (player s') = 0
              \<and> \<not> isJumping s'
         else player s' = p\<lparr>y := newY, velocityY := velocityY p + GRAVITY\<rparr>
              \<and> isJumping s' = isJumping s)"
  by (simp add: gameLoop_player gameLoop_isJumping updatePlayer_def Let_def GROUND_HEIGHT_def)

theorem ground_clamp_witness:
  "GameObject.height (player initialState) = 40
   \<and> player (snd (gameLoop 16 draws0 (loop0, initialState))) =
       \<lparr>GameObject.x = 50, y = 360, width = 40, height = 40, velocityY = 0\<rparr>
   \<and> \<not> isJumping (snd (gameLoop 16 draws0 (loop0, initialState)))
   \<and> GameObject.height (player airborneState) = 40
   \<and> player (snd (gameLoop 16 draws0 (loop0, airborneState))) =
       \<lparr>GameObject.x = 50, y = 288, width = 40, height = 40, velocityY = - 23 / 2\<rparr>
   \<and> isJumping (snd (gameLoop 16 draws0 (loop0, airborneState)))"
  using ground_clamp [of initialState 16 draws0 loop0]
    ground_clamp [of airborneState 16 draws0 loop0]
  by (simp add: initialState_def airborneState_def GROUND_HEIGHT_def GRAVITY_def Let_def)

section \<open>Collision detection\<close>

text \<open>
  C2 (collision triggers the terminal state). A call of \<open>gameLoop\<close> leaves \<open>gameOver\<close>
  true exactly when it was true already or \<open>checkCollision\<close> holds between the closure's
  player and one of the closure's obstacles. In a frame of the mounted component these
  are the player and the obstacles as they were at the start of the frame, before this
  frame's updates. The predicate holds for the player (x=50, y=360, w=40, h=40) and the
  obstacle (x=60, width=30, height=60), and a frame that starts with them ends with
  \<open>gameOver = true\<close>.
\<close>

theorem collision_game_over:
  "gameOver (snd (gameLoop timestamp d (l, s))) =
     (gameOver s \<or> (\<exists>ob \<in> set (cap_obstacles l). checkCollision (cap_player l) ob))
   \<and> gameOver (frame timestamp d s) =
     (gameOver s \<or> (\<exists>ob \<in> set (obstacles s). checkCollision (player s) ob))
   \<and> checkCollision \<lparr>GameObject.x = 50, y = 360, width = 40, height = 40, velocityY = v\<rparr>
        \<lparr>Obstacle.x = 60, width = 30, height = 60\<rparr>
   \<and> (player s = \<lparr>GameObject.x = 50, y = 360, width = 40, height = 40, velocityY = v\<rparr>
        \<and> \<lparr>Obstacle.x = 60, width = 30, height = 60\<rparr> \<in> set (obstacles s)
       \<longrightarrow> gameOver (frame timestamp d s))"
proof -
  have fr: "gameOver (frame timestamp d s) =
     (gameOver s \<or> (\<exists>ob \<in> set (obstacles s). checkCollision (player s) ob))"
    by (cases "gameOver s") (simp_all add: frame_def mountLoop_def gameLoop_gameOver)
  have hit: "checkCollision \<lparr>GameObject.x = 50, y = 360, width = 40, height = 40, velocityY = v\<rparr>
        \<lparr>Obstacle.x = 60, width = 30, height = 60\<rparr>"
    by (simp add: checkCollision_def GROUND_HEIGHT_def)
  from gameLoop_gameOver [of timestamp d l s] fr hit show ?thesis by auto
qed

text \<open>
  The check reads the positions of the start of the frame: in \<open>grazingState\<close> they
  overlap, the frame ends the session, and the positions the same frame commits do not
  overlap any more.
\<close>

theorem collision_game_over_witness:
  "(\<exists>ob \<in> set (obstacles grazingState). checkCollision (player grazingState) ob)
   \<and> \<not> gameOver grazingState
   \<and> gameOver (frame 16 draws0 grazingState)
   \<and> obstacles (frame 16 draws0 grazingState) = [\<lparr>Obstacle.x = 17, width = 30, height = 60\<rparr>]
   \<and> \<not> checkCollision (player (frame 16 draws0 grazingState))
         \<lparr>Obstacle.x = 17, width = 30, height = 60\<rparr>"
proof -
  have pre: "\<exists>ob \<in> set (obstacles grazingState). checkCollision (player grazingState) ob"
    by (simp add: grazingState_def checkCollision_def GROUND_HEIGHT_def)
  have over: "gameOver (frame 16 draws0 grazingState)"
    using collision_game_over [of 16 draws0 loop0 grazingState 0] pre by simp
  have post: "obstacles (frame 16 draws0 grazingState)
                = [\<lparr>Obstacle.x = 17, width = 30, height = 60\<rparr>]"
    by (simp add: frame_def mountLoop_def grazingState_def gameLoop_obstacles spawns_def
        draws0_def updateObstacles_def OBSTACLE_SPEED_def MIN_OBSTACLE_SPACING_def
        MAX_OBSTACLE_SPACING_def)
  have miss: "\<not> checkCollision (player (frame 16 draws0 grazingState))
                  \<lparr>Obstacle.x = 17, width = 30, height = 60\<rparr>"
    by (simp add: frame_def mountLoop_def grazingState_def gameLoop_player updatePlayer_def
        Let_def checkCollision_def GROUND_HEIGHT_def)
  from pre over post miss show ?thesis by (simp add: grazingState_def)
qed

section \<open>Keyboard intents\<close>

text \<open>
  C3 (restart resets exactly). From any state with \<open>gameOver = true\<close>, whatever its score
  and obstacles, a keydown of Space gives score 0, no obstacles, the player at (50, 360)
  with width 40, height 40 and \<open>velocityY = 0\<close>, \<open>isJumping = false\<close> and
  \<open>gameOver = false\<close>: the initial state. The loop effect that then starts has its spawn
  timer (and its last timestamp) at 0.
\<close>

theorem restart_resets:
  "gameOver s \<longrightarrow>
     (let s' = handleKeyDown ''Space'' s
      in score s' = 0 \<and> obstacles s' = []
         \<and> player s' = \<lparr>GameObject.x = 50, y = 360, width = 40, height = 40, velocityY = 0\<rparr>
         \<and> \<not> isJumping s' \<and> \<not> gameOver s'
         \<and> s' = initialState
         \<and> mountLoop s' = Some \<lparr>cap_player = player s', cap_obstacles = [],
                                  lastTimestamp = 0, obstacleSpawnTimer = 0\<rparr>)"
  by (simp add: handleKeyDown_def resetGame_def initialState_def mountLoop_def
      GROUND_HEIGHT_def Let_def)

theorem restart_resets_witness:
  "gameOver overState \<and> score overState = 17 \<and> obstacles overState \<noteq> []
   \<and> handleKeyDown ''Space'' overState = initialState
   \<and> score (handleKeyDown ''Space'' overState) = 0
   \<and> (\<exists>l. mountLoop (handleKeyDown ''Space'' overState) = Some l \<and> obstacleSpawnTimer l = 0)"
  using restart_resets [of overState]
  by (auto simp add: overState_def Let_def initialState_def)

text \<open>
  C4 (single jump). A keydown of Space or ArrowUp while the session runs and the player
  is not airborne sets \<open>velocityY = JUMP_FORCE\<close>, a negative constant, and sets
  \<open>isJumping\<close>; nothing else changes. The jump statement of the handler changes nothing
  when the player is airborne or the session is over, and the whole handler changes
  nothing for an airborne player in a running session. The handler is the jump statement
  on every keydown except Space in a finished session, which restarts.
\<close>

theorem single_jump:
  "((code = ''Space'' \<or> code = ''ArrowUp'') \<and> \<not> gameOver s \<and> \<not> isJumping s \<longrightarrow>
      handleKeyDown code s = s\<lparr>player := (player s)\<lparr>velocityY := JUMP_FORCE\<rparr>, isJumping := True\<rparr>
      \<and> handleJump code s = handleKeyDown code s)
   \<and> JUMP_FORCE < 0
   \<and> (isJumping s \<or> gameOver s \<longrightarrow> handleJump code s = s)
   \<and> (isJumping s \<and> \<not> gameOver s \<longrightarrow> handleKeyDown code s = s)
   \<and> (\<not> (gameOver s \<and> code = ''Space'') \<longrightarrow> handleKeyDown code s = handleJump code s)"
  by (auto simp add: handleKeyDown_def handleJump_def JUMP_FORCE_def)

theorem single_jump_witness:
  "\<not> gameOver initialState \<and> \<not> isJumping initialState
   \<and> velocityY (player (handleKeyDown ''ArrowUp'' initialState)) = - 12
   \<and> isJumping (handleKeyDown ''ArrowUp'' initialState)
   \<and> isJumping airborneState \<and> \<not> gameOver airborneState
   \<and> handleKeyDown ''Space'' airborneState = airborneState
   \<and> gameOver overState
   \<and> handleJump ''Space'' overState = overState
   \<and> handleKeyDown ''ArrowUp'' overState = overState"
  using single_jump [of "''ArrowUp''" initialState] single_jump [of "''Space''" airborneState]
    single_jump [of "''Space''" overState] single_jump [of "''ArrowUp''" overState]
  by (simp add: initialState_def airborneState_def overState_def JUMP_FORCE_def)

text \<open>
  C10 (restart key asymmetry). While \<open>gameOver\<close> holds, a keydown whose code is not Space,
  ArrowUp among them, leaves the whole state unchanged; Space calls \<open>resetGame\<close>; so a
  keydown that changes a finished session is a Space.
\<close>

theorem restart_key_asymmetry:
  "gameOver s \<longrightarrow>
     (code \<noteq> ''Space'' \<longrightarrow> handleKeyDown code s = s)
     \<and> handleKeyDown ''ArrowUp'' s = s
     \<and> handleKeyDown ''Space'' s = resetGame s
     \<and> (handleKeyDown code s \<noteq> s \<longrightarrow> code = ''Space'')"
  by (auto simp add: handleKeyDown_def handleJump_def)

theorem restart_key_asymmetry_witness:
  "gameOver overState
   \<and> handleKeyDown ''ArrowUp'' overState = overState
   \<and> handleKeyDown ''Enter'' overState = overState
   \<and> handleKeyDown ''Space'' overState = resetGame overState
   \<and> resetGame overState \<noteq> overState"
  using restart_key_asymmetry [of overState "''Enter''"]
  by (simp add: overState_def resetGame_def)

section \<open>Spawning\<close>

text \<open>
  C5 (spawn decision per frame), evaluated at an input where the running component
  departs from it. The loop adds \<open>deltaTime\<close> to \<open>obstacleSpawnTimer\<close> (line 106) and
  sets it to 0 when it spawns (line 115); but the timer and \<open>lastTimestamp\<close> are local
  variables of the effect, and the effect runs again after every frame (dependency list,
  line 189). So the timer a frame compares with the threshold is that frame's timestamp,
  not the time gathered since the last spawn. Take the 82 frames \<open>fastFrames 0 82\<close> on a
  fresh session; every threshold is 650. The first frame, at 1000, spawns and sets the
  timer to 0. After 81 frames the obstacle is at \<open>x = 395\<close>, and the frame at 1567 spawns
  a second one, 567 ms after the first, although 567 is below the threshold. The same 82
  calls made in one closure, where the timer does accumulate and stay reset, spawn no
  second obstacle and end with 567 on the timer.
\<close>

theorem spawn_timer_defeated:
  "mountLoop initialState = Some loop0
   \<and> obstacles (snd (gameLoop 1000 draws0 (loop0, initialState)))
        = [\<lparr>Obstacle.x = 795, width = 40, height = 75\<rparr>]
   \<and> obstacleSpawnTimer (fst (gameLoop 1000 draws0 (loop0, initialState))) = 0
   \<and> obstacles (run (frameEvents (fastFrames 0 81)) initialState)
        = [\<lparr>Obstacle.x = 395, width = 40, height = 75\<rparr>]
   \<and> fastFrames 0 82 = fastFrames 0 81 @ [(1567, draws0)]
   \<and> 1567 - 1000
        < MIN_OBSTACLE_SPACING
            + rnd_threshold draws0 * (MAX_OBSTACLE_SPACING - MIN_OBSTACLE_SPACING)
   \<and> obstacles (run (frameEvents (fastFrames 0 82)) initialState)
        = [\<lparr>Obstacle.x = 390, width = 40, height = 75\<rparr>,
           \<lparr>Obstacle.x = 795, width = 40, height = 75\<rparr>]
   \<and> obstacles (snd (loopRun (fastFrames 0 82) (loop0, initialState)))
        = [\<lparr>Obstacle.x = 390, width = 40, height = 75\<rparr>]
   \<and> obstacleSpawnTimer (fst (loopRun (fastFrames 0 82) (loop0, initialState))) = 567"
proof -
  let ?s81 = "run (frameEvents (fastFrames 0 81)) initialState"
  have m: "mountLoop initialState = Some loop0"
    by (simp add: mountLoop_def initialState_def loop0_def GROUND_HEIGHT_def)
  from inOneClosure_first
  have first: "obstacles (snd (gameLoop 1000 draws0 (loop0, initialState)))
        = [\<lparr>Obstacle.x = 795, width = 40, height = 75\<rparr>]"
    and reset: "obstacleSpawnTimer (fst (gameLoop 1000 draws0 (loop0, initialState))) = 0"
    by (simp_all add: inOneClosure_def)
  from onTheMarch_81 have running: "\<not> gameOver ?s81"
    and obs81: "obstacles ?s81 = [\<lparr>Obstacle.x = 395, width = 40, height = 75\<rparr>]"
    by (simp_all add: onTheMarch_def)
  have split: "fastFrames 0 82 = fastFrames 0 81 @ [(1567, draws0)]"
    using fastFrames_snoc [of 0 81] by simp
  have early: "1567 - 1000
        < MIN_OBSTACLE_SPACING
            + rnd_threshold draws0 * (MAX_OBSTACLE_SPACING - MIN_OBSTACLE_SPACING)"
    by (simp add: draws0_def MIN_OBSTACLE_SPACING_def MAX_OBSTACLE_SPACING_def)
  have last: "run (frameEvents (fastFrames 0 82)) initialState = frame 1567 draws0 ?s81"
    by (simp add: split frameEvents_append run_append frameEvents_Cons) (simp add: frameEvents_def)
  from running obs81
  have second: "obstacles (frame 1567 draws0 ?s81)
        = [\<lparr>Obstacle.x = 390, width = 40, height = 75\<rparr>,
           \<lparr>Obstacle.x = 795, width = 40, height = 75\<rparr>]"
    by (simp add: frame_def mountLoop_def gameLoop_obstacles spawns_def canSpawnObstacle_def
        createObstacle_def updateObstacles_def draws0_def
        MIN_OBSTACLE_SPACING_def MAX_OBSTACLE_SPACING_def canvas_width_def OBSTACLE_SPEED_def
        MIN_DISTANCE_BETWEEN_OBSTACLES_def)
  from inOneClosure_81
  have one: "obstacles (snd (loopRun (fastFrames 0 82) (loop0, initialState)))
        = [\<lparr>Obstacle.x = 390, width = 40, height = 75\<rparr>]"
    and timer: "obstacleSpawnTimer (fst (loopRun (fastFrames 0 82) (loop0, initialState))) = 567"
    by (simp_all add: inOneClosure_def)
  from m first reset obs81 split early second one timer show ?thesis
    unfolding last by (intro conjI)
qed

text \<open>
  C6 (spacing). In every state reached from the initial one by frames and keydowns, the
  spawn decision of the next frame either appends nothing, or appends one obstacle at
  \<open>x = canvas.width\<close> whose distance from the last obstacle of the sequence is not less
  than \<open>MIN_DISTANCE_BETWEEN_OBSTACLES\<close>. Hence every reached sequence, and the one the
  next frame commits, is \<open>spaced\<close>.
\<close>

theorem spacing_invariant:
  "(let s = run es initialState
    in (\<forall>l. mountLoop s = Some l \<longrightarrow>
          (let l1 = l\<lparr>lastTimestamp := timestamp,
                       obstacleSpawnTimer :=
                         obstacleSpawnTimer l + (timestamp - lastTimestamp l)\<rparr>;
               appended = obstacles (snd (spawnObstacles d (l1, s)))
           in appended = obstacles s
              \<or> appended = obstacles s @ [createObstacle d]
                \<and> Obstacle.x (createObstacle d) = canvas_width
                \<and> (obstacles s \<noteq> [] \<longrightarrow>
                      \<not> Obstacle.x (createObstacle d) - Obstacle.x (last (obstacles s))
                          < MIN_DISTANCE_BETWEEN_OBSTACLES)))
       \<and> spaced (obstacles s)
       \<and> spaced (obstacles (frame timestamp d s)))"
proof -
  define s where "s = run es initialState"
  have sp: "spaced (obstacles s)"
    unfolding s_def by (rule spaced_run) (simp add: initialState_def spaced_def)
  then have sp': "spaced (obstacles (frame timestamp d s))"
    by (rule spaced_frame)
  have phase: "(let l1 = l\<lparr>lastTimestamp := timestamp,
                       obstacleSpawnTimer :=
                         obstacleSpawnTimer l + (timestamp - lastTimestamp l)\<rparr>;
               appended = obstacles (snd (spawnObstacles d (l1, s)))
           in appended = obstacles s
              \<or> appended = obstacles s @ [createObstacle d]
                \<and> Obstacle.x (createObstacle d) = canvas_width
                \<and> (obstacles s \<noteq> [] \<longrightarrow>
                      \<not> Obstacle.x (createObstacle d) - Obstacle.x (last (obstacles s))
                          < MIN_DISTANCE_BETWEEN_OBSTACLES))"
    if "mountLoop s = Some l" for l
    using that
    by (auto simp add: mountLoop_def spawnObstacles_def canSpawnObstacle_def createObstacle_def
        Let_def split: if_splits)
  from sp sp' phase show ?thesis
    unfolding s_def [symmetric] Let_def by (simp add: Let_def)
qed

theorem spacing_invariant_witness:
  "obstacles (run (Frame 1000 draws0 # replicate 80 (Frame 1000 draws0)) initialState)
     = [\<lparr>Obstacle.x = 395, width = 40, height = 75\<rparr>]
   \<and> obstacles (frame 1000 draws0
        (run (Frame 1000 draws0 # replicate 80 (Frame 1000 draws0)) initialState))
     = [\<lparr>Obstacle.x = 390, width = 40, height = 75\<rparr>,
        \<lparr>Obstacle.x = 795, width = 40, height = 75\<rparr>]
   \<and> \<not> Obstacle.x (createObstacle draws0)
         - Obstacle.x (last (obstacles
             (run (Frame 1000 draws0 # replicate 80 (Frame 1000 draws0)) initialState)))
       < MIN_DISTANCE_BETWEEN_OBSTACLES
   \<and> spaced (obstacles (frame 1000 draws0
        (run (Frame 1000 draws0 # replicate 80 (Frame 1000 draws0)) initialState)))"
proof -
  let ?es = "Frame 1000 draws0 # replicate 80 (Frame 1000 draws0)"
  let ?s = "run ?es initialState"
  let ?l = "\<lparr>cap_player = player ?s, cap_obstacles = obstacles ?s, lastTimestamp = 0,
             obstacleSpawnTimer = 0\<rparr>"
  have s: "?s = marching 81"
    by (rule reach_marching_81)
  have obs: "obstacles ?s = [\<lparr>Obstacle.x = 395, width = 40, height = 75\<rparr>]"
    unfolding s by (simp add: marching_def)
  have mount: "mountLoop ?s = Some ?l"
    unfolding s by (simp add: mountLoop_def marching_def)
  have appended: "obstacles (snd (spawnObstacles draws0
        (?l\<lparr>lastTimestamp := 1000,
             obstacleSpawnTimer := obstacleSpawnTimer ?l + (1000 - lastTimestamp ?l)\<rparr>, ?s)))
      \<noteq> obstacles ?s"
    unfolding s
    by (simp add: spawnObstacles_def canSpawnObstacle_def marching_def draws0_def
        MIN_OBSTACLE_SPACING_def MAX_OBSTACLE_SPACING_def canvas_width_def
        MIN_DISTANCE_BETWEEN_OBSTACLES_def)
  have next_frame: "obstacles (frame 1000 draws0 ?s)
     = [\<lparr>Obstacle.x = 390, width = 40, height = 75\<rparr>,
        \<lparr>Obstacle.x = 795, width = 40, height = 75\<rparr>]"
    unfolding s
    by (simp add: frame_def mountLoop_def gameLoop_obstacles spawns_def canSpawnObstacle_def
        createObstacle_def updateObstacles_def marching_def draws0_def
        MIN_OBSTACLE_SPACING_def MAX_OBSTACLE_SPACING_def canvas_width_def OBSTACLE_SPEED_def
        MIN_DISTANCE_BETWEEN_OBSTACLES_def)
  from spacing_invariant [of ?es 1000 draws0] mount appended obs
  have "\<not> Obstacle.x (createObstacle draws0) - Obstacle.x (last (obstacles ?s))
           < MIN_DISTANCE_BETWEEN_OBSTACLES"
    and "spaced (obstacles (frame 1000 draws0 ?s))"
    by (simp_all add: Let_def)
  with obs next_frame show ?thesis by simp
qed

section \<open>Advancing and culling obstacles\<close>

text \<open>
  C7 (obstacle advance and culling). A frame of a running session commits the sequence
  of the old obstacles, followed by the new one if one was appended, each moved left by
  exactly \<open>OBSTACLE_SPEED\<close>, filtered in order to those with \<open>x + width > 0\<close>. So every
  obstacle of the committed sequence has \<open>x + width > 0\<close>; an obstacle with
  \<open>x + width \<le> 0\<close> is in it neither as it was nor advanced; and in no state reached later,
  by any frames and keydowns, does the sequence hold an obstacle with \<open>x + width \<le> 0\<close>.
\<close>

theorem obstacle_advance_cull:
  "\<not> gameOver s \<longrightarrow>
     (\<exists>new. (new = [] \<or> new = [createObstacle d])
        \<and> obstacles (frame timestamp d s) =
            filter (\<lambda>ob. Obstacle.x ob + Obstacle.width ob > 0)
              (map (\<lambda>ob. ob\<lparr>Obstacle.x := Obstacle.x ob - OBSTACLE_SPEED\<rparr>) (obstacles s @ new))
        \<and> obstacles (frame timestamp d s) =
            map (\<lambda>ob. ob\<lparr>Obstacle.x := Obstacle.x ob - OBSTACLE_SPEED\<rparr>)
              (filter (\<lambda>ob. Obstacle.x ob - OBSTACLE_SPEED + Obstacle.width ob > 0)
                 (obstacles s @ new)))
     \<and> (\<forall>ob \<in> set (obstacles (frame timestamp d s)). Obstacle.x ob + Obstacle.width ob > 0)
     \<and> (\<forall>ob \<in> set (obstacles s). Obstacle.x ob + Obstacle.width ob \<le> 0 \<longrightarrow>
           ob \<notin> set (obstacles (frame timestamp d s))
           \<and> ob\<lparr>Obstacle.x := Obstacle.x ob - OBSTACLE_SPEED\<rparr>
                 \<notin> set (obstacles (frame timestamp d s)))
     \<and> (\<forall>ob \<in> set (obstacles (run es (frame timestamp d s))).
           Obstacle.x ob + Obstacle.width ob > 0)"
  (is "_ \<longrightarrow> ?shape \<and> ?vis \<and> ?gone \<and> ?later")
proof
  assume running: "\<not> gameOver s"
  define l where "l = the (mountLoop s)"
  define new where "new = (if spawns timestamp d l then [createObstacle d] else [])"
  have obs: "obstacles (frame timestamp d s) = updateObstacles (obstacles s @ new)"
    using running by (simp add: frame_def mountLoop_def gameLoop_obstacles new_def l_def)
  have shape: ?shape
  proof (intro exI conjI)
    show "new = [] \<or> new = [createObstacle d]"
      by (simp add: new_def)
    show "obstacles (frame timestamp d s) =
            filter (\<lambda>ob. Obstacle.x ob + Obstacle.width ob > 0)
              (map (\<lambda>ob. ob\<lparr>Obstacle.x := Obstacle.x ob - OBSTACLE_SPEED\<rparr>) (obstacles s @ new))"
      unfolding obs by (rule updateObstacles_def)
    show "obstacles (frame timestamp d s) =
            map (\<lambda>ob. ob\<lparr>Obstacle.x := Obstacle.x ob - OBSTACLE_SPEED\<rparr>)
              (filter (\<lambda>ob. Obstacle.x ob - OBSTACLE_SPEED + Obstacle.width ob > 0)
                 (obstacles s @ new))"
      unfolding obs by (rule updateObstacles_alt)
  qed
  have vis: ?vis
    by (simp add: obs updateObstacles_visible)
  have gone: ?gone
  proof (intro ballI impI)
    fix ob
    assume "ob \<in> set (obstacles s)" and off: "Obstacle.x ob + Obstacle.width ob \<le> 0"
    from off have "\<not> (Obstacle.x ob + Obstacle.width ob > 0)" by simp
    moreover from off
    have "\<not> (Obstacle.x (ob\<lparr>Obstacle.x := Obstacle.x ob - OBSTACLE_SPEED\<rparr>)
              + Obstacle.width (ob\<lparr>Obstacle.x := Obstacle.x ob - OBSTACLE_SPEED\<rparr>) > 0)"
      by (simp add: OBSTACLE_SPEED_def)
    ultimately show "ob \<notin> set (obstacles (frame timestamp d s))
           \<and> ob\<lparr>Obstacle.x := Obstacle.x ob - OBSTACLE_SPEED\<rparr>
                 \<notin> set (obstacles (frame timestamp d s))"
      using vis by blast
  qed
  have later: ?later
    using vis by (rule run_visible)
  from shape vis gone later show "?shape \<and> ?vis \<and> ?gone \<and> ?later"
    by (intro conjI)
qed

theorem obstacle_advance_cull_witness:
  "\<not> gameOver cullState
   \<and> \<lparr>Obstacle.x = - 30, width = 30, height = 60\<rparr> \<in> set (obstacles cullState)
   \<and> obstacles (frame 16 draws0 cullState) = [\<lparr>Obstacle.x = 295, width = 40, height = 70\<rparr>]
   \<and> \<lparr>Obstacle.x = - 30, width = 30, height = 60\<rparr> \<notin> set (obstacles (frame 16 draws0 cullState))
   \<and> \<lparr>Obstacle.x = - 35, width = 30, height = 60\<rparr> \<notin> set (obstacles (frame 16 draws0 cullState))
   \<and> \<lparr>Obstacle.x = - 40, width = 30, height = 60\<rparr>
         \<notin> set (obstacles (run [Frame 32 draws0, KeyDown ''ArrowUp'', Frame 48 draws0]
                                (frame 16 draws0 cullState)))"
proof -
  have running: "\<not> gameOver cullState"
    by (simp add: cullState_def)
  have mem: "\<lparr>Obstacle.x = - 30, width = 30, height = 60\<rparr> \<in> set (obstacles cullState)"
    by (simp add: cullState_def)
  have committed: "obstacles (frame 16 draws0 cullState)
      = [\<lparr>Obstacle.x = 295, width = 40, height = 70\<rparr>]"
    by (simp add: frame_def mountLoop_def cullState_def gameLoop_obstacles spawns_def
        draws0_def updateObstacles_def OBSTACLE_SPEED_def MIN_OBSTACLE_SPACING_def
        MAX_OBSTACLE_SPACING_def)
  note all = obstacle_advance_cull [of cullState draws0 16
      "[Frame 32 draws0, KeyDown ''ArrowUp'', Frame 48 draws0]", THEN mp, OF running]
  note gone = all [THEN conjunct2, THEN conjunct2, THEN conjunct1, THEN bspec, OF mem]
  note later = all [THEN conjunct2, THEN conjunct2, THEN conjunct2]
  from gone have absent:
    "\<lparr>Obstacle.x = - 30, width = 30, height = 60\<rparr>
          \<notin> set (obstacles (frame 16 draws0 cullState))
     \<and> \<lparr>Obstacle.x = - 35, width = 30, height = 60\<rparr>
          \<notin> set (obstacles (frame 16 draws0 cullState))"
    by (simp add: OBSTACLE_SPEED_def)
  have never: "\<lparr>Obstacle.x = - 40, width = 30, height = 60\<rparr>
         \<notin> set (obstacles (run [Frame 32 draws0, KeyDown ''ArrowUp'', Frame 48 draws0]
                                (frame 16 draws0 cullState)))"
  proof
    assume "\<lparr>Obstacle.x = - 40, width = 30, height = 60\<rparr>
         \<in> set (obstacles (run [Frame 32 draws0, KeyDown ''ArrowUp'', Frame 48 draws0]
                                (frame 16 draws0 cullState)))"
    from later [THEN bspec, OF this] show False by simp
  qed
  from running mem committed absent never show ?thesis
    by (intro conjI) simp_all
qed

section \<open>Score and frame time\<close>

text \<open>
  C8 (score), as the code has it. A call of \<open>gameLoop\<close> with
  \<open>deltaTime = timestamp - lastTimestamp\<close> adds \<open>floor(deltaTime / 100)\<close> to the score when
  \<open>deltaTime\<close> is not 0 and leaves the score alone when it is 0; the score does not
  decrease when \<open>deltaTime \<ge> 0\<close>, and an integer score stays an integer. Over a sequence of
  calls in one closure with non-decreasing timestamps, and over a sequence of frames of
  the mounted component with non-negative timestamps (there \<open>lastTimestamp\<close> is 0 in every
  frame, so \<open>deltaTime\<close> is the timestamp), the score never decreases and stays an
  integer. Once \<open>gameOver\<close> holds, frames change nothing.
\<close>

theorem score_monotone:
  "(let deltaTime = timestamp - lastTimestamp l;
        s' = snd (gameLoop timestamp d (l, s))
    in score s' = score s + (if deltaTime \<noteq> 0 then of_int \<lfloor>deltaTime / 100\<rfloor> else 0)
       \<and> (0 \<le> deltaTime \<longrightarrow> score s \<le> score s')
       \<and> (deltaTime = 0 \<longrightarrow> score s' = score s)
       \<and> (score s \<in> \<int> \<longrightarrow> score s' \<in> \<int>))
   \<and> (sorted (lastTimestamp l # map fst fs) \<longrightarrow> score s \<le> score (snd (loopRun fs (l, s))))
   \<and> ((\<forall>f \<in> set fs. 0 \<le> fst f) \<longrightarrow> score s \<le> score (run (frameEvents fs) s))
   \<and> (score s \<in> \<int> \<longrightarrow> score (run (frameEvents fs) s) \<in> \<int>)
   \<and> (gameOver s \<longrightarrow> run (frameEvents fs) s = s)"
  by (simp add: Let_def gameLoop_score incrementScore_score loopRun_score_mono
      frames_score_mono frames_score_Ints frames_gameOver_id)

text \<open>
  With a negative \<open>deltaTime\<close> the guard \<open>if (deltaTime)\<close> still passes and the floor is
  negative: the score of a running session drops from 5 to 3.
\<close>

theorem score_monotone_counterexample:
  "\<not> gameOver scoredState
   \<and> 800 - lastTimestamp lateLoop \<le> 0
   \<and> score scoredState = 5
   \<and> score (snd (gameLoop 800 draws0 (lateLoop, scoredState))) = 3
   \<and> score (frame (- 200) draws0 scoredState) = 3"
  by (simp add: gameLoop_score frame_score incrementScore_def scoredState_def lateLoop_def)

theorem score_monotone_witness:
  "0 \<le> 1250 - lastTimestamp lateLoop
   \<and> score (snd (gameLoop 1250 draws0 (lateLoop, scoredState))) = 7
   \<and> sorted (lastTimestamp lateLoop # map fst [(1016 :: rat, draws0), (1032, draws0)])
   \<and> score scoredState \<le> score (snd (loopRun [(1016, draws0), (1032, draws0)] (lateLoop, scoredState)))
   \<and> (0 :: rat) \<le> 1016 \<and> (0 :: rat) \<le> 1032
   \<and> score scoredState \<le> score (run (frameEvents [(1016, draws0), (1032, draws0)]) scoredState)
   \<and> score scoredState \<in> \<int>
   \<and> score (run (frameEvents [(1016, draws0), (1032, draws0)]) scoredState) \<in> \<int>
   \<and> gameOver overState
   \<and> run (frameEvents [(1016, draws0), (1032, draws0)]) overState = overState"
proof -
  have fl: "\<lfloor>(5::rat) / 2\<rfloor> = 2"
    by (simp add: floor_unique)
  have five: "score scoredState = 5" and late: "lastTimestamp lateLoop = 1000"
    and over: "gameOver overState"
    by (simp_all add: scoredState_def lateLoop_def overState_def)
  from score_monotone [of 1250 lateLoop draws0 scoredState "[(1016, draws0), (1032, draws0)]"]
    score_monotone [of 0 lateLoop draws0 overState "[(1016, draws0), (1032, draws0)]"]
  show ?thesis
    by (simp add: Let_def five late over fl)
qed

text \<open>
  C9 (first frame), as the code has it. A loop starts with \<open>lastTimestamp = 0\<close>, so in its
  first call \<open>deltaTime\<close> is the timestamp itself: the call adds \<open>floor(timestamp / 100)\<close> to
  the score when the timestamp is not 0, and the timestamp to the spawn timer, which the
  spawn decision then reads. Only a first frame at timestamp 0 adds nothing.
\<close>

theorem first_frame_delta:
  "mountLoop s = Some l \<longrightarrow>
     (let l' = fst (gameLoop timestamp d (l, s));
          s' = snd (gameLoop timestamp d (l, s));
          threshold = MIN_OBSTACLE_SPACING
                        + rnd_threshold d * (MAX_OBSTACLE_SPACING - MIN_OBSTACLE_SPACING)
      in timestamp - lastTimestamp l = timestamp
         \<and> lastTimestamp l' = timestamp
         \<and> score s' = score s + (if timestamp \<noteq> 0 then of_int \<lfloor>timestamp / 100\<rfloor> else 0)
         \<and> obstacleSpawnTimer l'
             = (if timestamp > threshold \<and> canSpawnObstacle l then 0 else timestamp)
         \<and> frame timestamp d s = s'
         \<and> (timestamp = 0 \<longrightarrow> score s' = score s \<and> obstacleSpawnTimer l' = 0))"
proof
  assume m: "mountLoop s = Some l"
  then have zero: "lastTimestamp l = 0" "obstacleSpawnTimer l = 0"
    by (auto simp add: mountLoop_def split: if_splits)
  from m have fr: "frame timestamp d s = snd (gameLoop timestamp d (l, s))"
    by (simp add: frame_def)
  show "(let l' = fst (gameLoop timestamp d (l, s));
          s' = snd (gameLoop timestamp d (l, s));
          threshold = MIN_OBSTACLE_SPACING
                        + rnd_threshold d * (MAX_OBSTACLE_SPACING - MIN_OBSTACLE_SPACING)
      in timestamp - lastTimestamp l = timestamp
         \<and> lastTimestamp l' = timestamp
         \<and> score s' = score s + (if timestamp \<noteq> 0 then of_int \<lfloor>timestamp / 100\<rfloor> else 0)
         \<and> obstacleSpawnTimer l'
             = (if timestamp > threshold \<and> canSpawnObstacle l then 0 else timestamp)
         \<and> frame timestamp d s = s'
         \<and> (timestamp = 0 \<longrightarrow> score s' = score s \<and> obstacleSpawnTimer l' = 0))"
    by (simp add: Let_def gameLoop_loop gameLoop_score incrementScore_def spawns_def zero fr)
qed

text \<open>
  The first frame of a fresh session at timestamp 1000 scores 10 points and spawns an
  obstacle; at timestamp 300 it leaves 300 on the spawn timer.
\<close>

theorem first_frame_delta_counterexample:
  "mountLoop initialState = Some loop0
   \<and> score initialState = 0
   \<and> score (snd (gameLoop 1000 draws0 (loop0, initialState))) = 10
   \<and> obstacleSpawnTimer loop0 = 0
   \<and> obstacleSpawnTimer (fst (gameLoop 300 draws0 (loop0, initialState))) = 300
   \<and> obstacles (snd (gameLoop 1000 draws0 (loop0, initialState)))
        = [\<lparr>Obstacle.x = 795, width = 40, height = 75\<rparr>]"
  by (simp add: mountLoop_def initialState_def loop0_def gameLoop_score gameLoop_loop
      gameLoop_obstacles incrementScore_def spawns_def canSpawnObstacle_def draws0_def
      createObstacle_def updateObstacles_def GROUND_HEIGHT_def
      MIN_OBSTACLE_SPACING_def MAX_OBSTACLE_SPACING_def canvas_width_def OBSTACLE_SPEED_def)

theorem first_frame_delta_witness:
  "mountLoop initialState = Some loop0
   \<and> score (snd (gameLoop 1000 draws0 (loop0, initialState))) = score initialState + 10
   \<and> score (frame 1000 draws0 initialState) = 10
   \<and> obstacleSpawnTimer (fst (gameLoop 300 draws0 (loop0, initialState))) = 300
   \<and> score (snd (gameLoop 0 draws0 (loop0, initialState))) = score initialState
   \<and> obstacleSpawnTimer (fst (gameLoop 0 draws0 (loop0, initialState))) = 0"
proof -
  have m: "mountLoop initialState = Some loop0"
    by (simp add: mountLoop_def initialState_def loop0_def GROUND_HEIGHT_def)
  have thr: "MIN_OBSTACLE_SPACING
               + rnd_threshold draws0 * (MAX_OBSTACLE_SPACING - MIN_OBSTACLE_SPACING) = 650"
    by (simp add: draws0_def MIN_OBSTACLE_SPACING_def MAX_OBSTACLE_SPACING_def)
  have z: "score initialState = 0"
    by (simp add: initialState_def)
  from m first_frame_delta [of initialState loop0 1000 draws0]
    first_frame_delta [of initialState loop0 300 draws0]
    first_frame_delta [of initialState loop0 0 draws0]
  show ?thesis
    by (simp add: Let_def thr z)
qed

end
